theory Spec2Isabelle
  imports Main "HOL-Library.Word"
begin

section \<open>The example project: \<^verbatim>\<open>src/example-project/src/main.cpp\<close>\<close>

text \<open>
  The whole program is one procedure:
  \<^verbatim>\<open>
  int main() {
      std::vector<int> v;
      for (int i = 0; i < 3; i++) {
          v.push_back(i);
      }
      for (auto i : v) {
          std::cout << i << std::endl;
      }
      return 0;
  }
  \<close>
  It is embedded below with the two library types it uses: \<^verbatim>\<open>std::vector<int>\<close> as a
  list of 32-bit words read as signed, and \<^verbatim>\<open>std::cout\<close> as a buffered stream in front
  of the standard output of the process.
\<close>

subsection \<open>Integers and the vector\<close>

text \<open>\<^verbatim>\<open>int\<close>: 32 bits, two's complement; \<open>sint\<close> reads the signed value.\<close>

type_synonym cint = "32 word"

text \<open>
  \<^verbatim>\<open>std::vector<int>\<close>: the elements in order. \<^verbatim>\<open>push_back\<close> appends at the end.
  An iterator is a position; \<^verbatim>\<open>begin()\<close> is position 0 and \<^verbatim>\<open>end()\<close> the position
  one past the last element. Dereferencing an iterator reads the element at its
  position; outside the stored elements the read has no defined behaviour in C++
  and is the fault \<open>Out_of_range\<close> here.

  The other way a run ends without returning from \<^verbatim>\<open>main\<close> is \<open>Sigpipe\<close>: the
  process writes to a pipe or socket that has no reader, the system raises the
  signal \<^verbatim>\<open>SIGPIPE\<close>, and the process is killed at that write. The program installs
  no handler for the signal.
\<close>

datatype fault = Out_of_range | Sigpipe

definition push_back :: "cint list \<Rightarrow> cint \<Rightarrow> cint list" where
  "push_back v x = v @ [x]"

definition vector_begin :: "cint list \<Rightarrow> nat" where
  "vector_begin v = 0"

definition vector_end :: "cint list \<Rightarrow> nat" where
  "vector_end v = length v"

definition deref :: "cint list \<Rightarrow> nat \<Rightarrow> fault + cint" where
  "deref v it = (if it < length v then Inr (v ! it) else Inl Out_of_range)"

subsection \<open>The output stream\<close>

text \<open>
  The world outside the process: whether the standard output accepts bytes, and
  the chunks of bytes each of the two standard streams has received so far, one
  chunk per delivery, oldest first. For a standard output that does not accept
  bytes, \<open>stdout_sigpipe\<close> tells how a write to it fails: with the signal
  \<^verbatim>\<open>SIGPIPE\<close>, which kills the process (a pipe or socket whose reader is gone), or
  with an error code only (a closed descriptor, a full device).
\<close>

record world =
  stdout_writable :: bool
  stdout_sigpipe :: bool
  stdout_writes :: "string list"
  stderr_writes :: "string list"

text \<open>
  The process: the world, the characters written to \<^verbatim>\<open>std::cout\<close> that are
  buffered and not yet delivered, and whether an error flag of \<^verbatim>\<open>std::cout\<close> is
  set (the stream is not \<^verbatim>\<open>good()\<close>).
\<close>

record proc =
  os :: world
  cout_buf :: string
  cout_bad :: bool

definition stdout_bytes :: "world \<Rightarrow> string" where
  "stdout_bytes wl = concat (stdout_writes wl)"

definition stderr_bytes :: "world \<Rightarrow> string" where
  "stderr_bytes wl = concat (stderr_writes wl)"

text \<open>A process starts with an empty stream buffer and no error flag.\<close>

definition start_process :: "world \<Rightarrow> proc" where
  "start_process wl = \<lparr>os = wl, cout_buf = [], cout_bad = False\<rparr>"

text \<open>
  The decimal text of an integer, as \<^verbatim>\<open>operator<<(int)\<close> formats it with the
  default flags: the digits, most significant first, after a minus sign when the
  value is negative.
\<close>

definition digit_char :: "nat \<Rightarrow> char" where
  "digit_char d = ''0123456789'' ! (d mod 10)"

fun digits :: "nat \<Rightarrow> string" where
  "digits n = (if n < 10 then [digit_char n] else digits (n div 10) @ [digit_char (n mod 10)])"

definition to_decimal :: "int \<Rightarrow> string" where
  "to_decimal k = (if k < 0 then CHR ''-'' # digits (nat (- k)) else digits (nat k))"

text \<open>
  \<^verbatim>\<open>std::cout << i\<close>: on a stream that is not good nothing is inserted; otherwise
  the decimal text goes to the buffer.
\<close>

definition ostream_insert_int :: "cint \<Rightarrow> proc \<Rightarrow> proc" where
  "ostream_insert_int i p =
     (if cout_bad p then p else p\<lparr>cout_buf := cout_buf p @ to_decimal (sint i)\<rparr>)"

text \<open>\<^verbatim>\<open>put(c)\<close>: one character to the buffer, on a good stream.\<close>

definition ostream_put :: "char \<Rightarrow> proc \<Rightarrow> proc" where
  "ostream_put c p = (if cout_bad p then p else p\<lparr>cout_buf := cout_buf p @ [c]\<rparr>)"

text \<open>
  Writing out the buffer (the flush of the C stream \<^verbatim>\<open>stdout\<close> that \<^verbatim>\<open>std::cout\<close>
  sits on; the C runtime does the same at process exit). With nothing pending
  nothing is written. Otherwise the pending characters are delivered to the
  standard output as one chunk. When the standard output does not accept them,
  either the write raises \<^verbatim>\<open>SIGPIPE\<close> and the process is killed there, or the
  write fails with an error code: then the pending characters are lost and the
  stream is left with its error flag set.
\<close>

definition stdout_flush :: "proc \<Rightarrow> fault + proc" where
  "stdout_flush p =
     (if cout_buf p = [] then Inr p
      else if stdout_writable (os p)
        then Inr (p\<lparr>os := (os p)\<lparr>stdout_writes := stdout_writes (os p) @ [cout_buf p]\<rparr>,
                    cout_buf := []\<rparr>)
      else if stdout_sigpipe (os p) then Inl Sigpipe
      else Inr (p\<lparr>cout_buf := [], cout_bad := True\<rparr>))"

text \<open>
  \<^verbatim>\<open>flush()\<close> of \<^verbatim>\<open>std::cout\<close>: on a stream that is not good nothing happens;
  otherwise the buffer is written out. A failed write raises no exception: the
  exception mask of \<^verbatim>\<open>std::cout\<close> is empty and the program never changes it.
\<close>

definition ostream_flush :: "proc \<Rightarrow> fault + proc" where
  "ostream_flush p = (if cout_bad p then Inr p else stdout_flush p)"

text \<open>\<^verbatim>\<open>std::endl\<close>: a newline character, then a flush.\<close>

definition newline :: char where
  "newline = CHR 0x0A"

definition endl :: "proc \<Rightarrow> fault + proc" where
  "endl p = ostream_flush (ostream_put newline p)"

subsection \<open>The two loops and \<^verbatim>\<open>main\<close>\<close>

text \<open>
  \<^verbatim>\<open>for (int i = 0; i < 3; i++) { v.push_back(i); }\<close> from the state \<open>(v, i)\<close> at
  the loop test. The comparison is the signed one; \<^verbatim>\<open>i++\<close> is the addition of the
  32-bit word.
\<close>

function build_loop :: "cint list \<Rightarrow> cint \<Rightarrow> cint list" where
  "build_loop v i = (if sint i < 3 then build_loop (push_back v i) (i + 1) else v)"
  by pat_completeness auto
termination
proof (relation "measure (\<lambda>(v, i). nat (3 - sint i))")
  show "wf (measure (\<lambda>(v :: cint list, i :: cint). nat (3 - sint i)))"
    by simp
next
  fix v :: "cint list" and i :: cint
  assume less: "sint i < 3"
  have lower: "- (2 ^ 31) \<le> sint i"
    using sint_ge [of i] by simp
  have "sint (i + 1) = signed_take_bit 31 (sint i + 1)"
    by (simp add: sint_word_ariths)
  also have "\<dots> = sint i + 1"
    using less lower by (intro signed_take_bit_int_eq_self) simp_all
  finally have "sint (i + 1) = sint i + 1" .
  with less show "((push_back v i, i + 1), (v, i)) \<in> measure (\<lambda>(v, i). nat (3 - sint i))"
    by simp
qed

text \<open>
  The states of the building loop at its iteration boundaries (each evaluation of
  the loop test), first to last.
\<close>

function build_trace :: "cint list \<Rightarrow> cint \<Rightarrow> (cint list \<times> cint) list" where
  "build_trace v i =
     (v, i) # (if sint i < 3 then build_trace (push_back v i) (i + 1) else [])"
  by pat_completeness auto
termination
proof (relation "measure (\<lambda>(v, i). nat (3 - sint i))")
  show "wf (measure (\<lambda>(v :: cint list, i :: cint). nat (3 - sint i)))"
    by simp
next
  fix v :: "cint list" and i :: cint
  assume less: "sint i < 3"
  have lower: "- (2 ^ 31) \<le> sint i"
    using sint_ge [of i] by simp
  have "sint (i + 1) = signed_take_bit 31 (sint i + 1)"
    by (simp add: sint_word_ariths)
  also have "\<dots> = sint i + 1"
    using less lower by (intro signed_take_bit_int_eq_self) simp_all
  finally have "sint (i + 1) = sint i + 1" .
  with less show "((push_back v i, i + 1), (v, i)) \<in> measure (\<lambda>(v, i). nat (3 - sint i))"
    by simp
qed

text \<open>The body of the second loop: \<^verbatim>\<open>std::cout << i << std::endl;\<close>\<close>

definition print_body :: "cint \<Rightarrow> proc \<Rightarrow> fault + proc" where
  "print_body i p = endl (ostream_insert_int i p)"

text \<open>
  \<^verbatim>\<open>for (auto i : v) body\<close> is, by the language's definition of the range-based
  loop, the iterator loop
  \<^verbatim>\<open>for (auto it = v.begin(), e = v.end(); it != e; ++it) { auto i = *it; body }\<close>.
  A process that is killed in the body runs no further iteration.
\<close>

function print_loop :: "cint list \<Rightarrow> nat \<Rightarrow> nat \<Rightarrow> proc \<Rightarrow> fault + proc" where
  "print_loop v it e p =
     (if it \<noteq> e
      then (case deref v it of
              Inl f \<Rightarrow> Inl f
            | Inr i \<Rightarrow>
                (case print_body i p of
                   Inl f \<Rightarrow> Inl f
                 | Inr q \<Rightarrow> print_loop v (it + 1) e q))
      else Inr p)"
  by pat_completeness auto
termination
  by (relation "measure (\<lambda>(v, it, e, p). length v - it)")
     (auto simp: deref_def split: if_splits)

text \<open>\<^verbatim>\<open>main\<close>: build, print, \<^verbatim>\<open>return 0\<close>.\<close>

definition main :: "proc \<Rightarrow> fault + (proc \<times> cint)" where
  "main p =
     (let v = build_loop [] 0 in
      case print_loop v (vector_begin v) (vector_end v) p of
        Inl f \<Rightarrow> Inl f
      | Inr p' \<Rightarrow> Inr (p', 0))"

text \<open>
  A run of the program: the runtime starts the process in the given world, calls
  \<^verbatim>\<open>main()\<close>, which takes no parameters, and when \<^verbatim>\<open>main\<close> has returned writes
  out what the buffer of the standard output still holds, whatever the flags of
  \<^verbatim>\<open>std::cout\<close>; the value \<^verbatim>\<open>main\<close> returned is the exit status. A run that is
  killed has no exit status: its outcome is the fault. The command-line arguments
  and the environment variables are there for every process; nothing in the
  program reads them.
\<close>

definition run_process ::
    "string list \<Rightarrow> (string \<times> string) list \<Rightarrow> world \<Rightarrow> fault + (world \<times> cint)" where
  "run_process argv envp wl =
     (case main (start_process wl) of
        Inl f \<Rightarrow> Inl f
      | Inr (p, status) \<Rightarrow>
          (case stdout_flush p of
             Inl f \<Rightarrow> Inl f
           | Inr q \<Rightarrow> Inr (os q, status)))"


text \<open>The text of one output line: the decimal text of the element, then a newline.\<close>

definition line :: "cint \<Rightarrow> string" where
  "line i = to_decimal (sint i) @ [newline]"

text \<open>
  The invariant of the building loop at the loop test: the counter is between 0 and
  3, the vector has as many elements as the counter says, and position \<open>j\<close> holds \<open>j\<close>.
\<close>

definition build_inv :: "cint list \<Rightarrow> cint \<Rightarrow> bool" where
  "build_inv v i \<longleftrightarrow>
     0 \<le> sint i \<and> sint i \<le> 3 \<and> int (length v) = sint i \<and>
     (\<forall>j \<in> {..<length v}. sint (v ! j) = int j)"

section \<open>Properties\<close>

text \<open>
  The recursive equations of the loops are unfolded by hand, one iteration at a time.
\<close>

declare build_loop.simps [simp del]
declare build_trace.simps [simp del]
declare print_loop.simps [simp del]
declare digits.simps [simp del]

subsection \<open>The building loop\<close>

lemma sint_succ:
  fixes i :: cint
  assumes "sint i < 3"
  shows "sint (i + 1) = sint i + 1"
proof -
  have "- (2 ^ 31) \<le> sint i"
    using sint_ge [of i] by simp
  with assms have "signed_take_bit 31 (sint i + 1) = sint i + 1"
    by (intro signed_take_bit_int_eq_self) simp_all
  then show ?thesis
    by (simp add: sint_word_ariths)
qed

lemma build_loop_result: "build_loop [] 0 = [0, 1, 2]"
  by (simp add: build_loop.simps push_back_def)

lemma build_trace_result:
  "build_trace [] 0 = [([], 0), ([0], 1), ([0, 1], 2), ([0, 1, 2], 3)]"
  by (simp add: build_trace.simps push_back_def)

lemma build_inv_init: "build_inv [] 0"
  by (simp add: build_inv_def)

lemma build_inv_step:
  assumes "build_inv v i" and "sint i < 3"
  shows "build_inv (push_back v i) (i + 1)"
proof -
  from assms have len: "int (length v) = sint i" and pos: "0 \<le> sint i"
    and old: "\<And>j. j < length v \<Longrightarrow> sint (v ! j) = int j"
    by (simp_all add: build_inv_def)
  have "sint ((v @ [i]) ! j) = int j" if "j < Suc (length v)" for j
  proof (cases "j < length v")
    case True
    then show ?thesis by (simp add: nth_append old)
  next
    case False
    with that have "j = length v" by simp
    then show ?thesis using len by (simp add: nth_append)
  qed
  with assms len pos show ?thesis
    by (simp add: build_inv_def push_back_def sint_succ)
qed

lemma build_trace_inv:
  "build_inv v i \<Longrightarrow> (v', i') \<in> set (build_trace v i) \<Longrightarrow> build_inv v' i'"
proof (induction v i rule: build_trace.induct)
  case (1 v i)
  from "1.prems"(2) have "(v', i') = (v, i) \<or>
      (sint i < 3 \<and> (v', i') \<in> set (build_trace (push_back v i) (i + 1)))"
    by (subst (asm) build_trace.simps) (auto split: if_splits)
  then show ?case
  proof
    assume "(v', i') = (v, i)"
    with "1.prems"(1) show ?thesis by simp
  next
    assume step: "sint i < 3 \<and> (v', i') \<in> set (build_trace (push_back v i) (i + 1))"
    then have "build_inv (push_back v i) (i + 1)"
      using "1.prems"(1) by (simp add: build_inv_step)
    with step show ?thesis
      by (intro "1.IH") simp_all
  qed
qed

lemma build_trace_head: "build_trace v i ! 0 = (v, i)"
  by (subst build_trace.simps) simp

lemma build_trace_tail:
  "Suc k < length (build_trace v i) \<Longrightarrow>
     sint i < 3 \<and> build_trace v i ! Suc k = build_trace (push_back v i) (i + 1) ! k \<and>
     k < length (build_trace (push_back v i) (i + 1))"
  by (subst (asm) build_trace.simps, subst build_trace.simps) (auto split: if_splits)

lemma build_trace_counter:
  "Suc k < length (build_trace v i) \<Longrightarrow>
     snd (build_trace v i ! Suc k) = snd (build_trace v i ! k) + 1"
proof (induction k arbitrary: v i)
  case 0
  from build_trace_tail [OF 0] show ?case
    by (simp add: build_trace_head)
next
  case (Suc k)
  from build_trace_tail [OF Suc.prems]
  have less: "sint i < 3"
    and here: "build_trace v i ! Suc (Suc k) = build_trace (push_back v i) (i + 1) ! Suc k"
    and len: "Suc k < length (build_trace (push_back v i) (i + 1))"
    by simp_all
  from build_trace_tail [of k v i] len Suc.prems
  have prev: "build_trace v i ! Suc k = build_trace (push_back v i) (i + 1) ! k"
    by simp
  from Suc.IH [OF len] show ?case
    by (simp add: here prev)
qed

lemma build_trace_last: "last (build_trace v i) = (build_loop v i, snd (last (build_trace v i)))"
proof (induction v i rule: build_trace.induct)
  case (1 v i)
  show ?case
  proof (cases "sint i < 3")
    case True
    have ne: "build_trace (push_back v i) (i + 1) \<noteq> []"
      by (subst build_trace.simps) simp
    have "last (build_trace v i) = last (build_trace (push_back v i) (i + 1))"
      using True ne by (subst build_trace.simps) simp
    moreover have "build_loop v i = build_loop (push_back v i) (i + 1)"
      using True by (subst build_loop.simps) simp
    ultimately show ?thesis
      using "1.IH" [OF True] by simp
  next
    case False
    then show ?thesis
      by (subst build_trace.simps, subst build_loop.simps, subst build_trace.simps) simp
  qed
qed

lemma build_trace_length_nth:
  "k < length (build_trace v i) \<Longrightarrow> length (fst (build_trace v i ! k)) = length v + k"
proof (induction k arbitrary: v i)
  case 0
  show ?case by (simp add: build_trace_head)
next
  case (Suc k)
  from build_trace_tail [OF Suc.prems]
  have here: "build_trace v i ! Suc k = build_trace (push_back v i) (i + 1) ! k"
    and len: "k < length (build_trace (push_back v i) (i + 1))"
    by simp_all
  from Suc.IH [OF len] show ?case
    by (simp add: here push_back_def)
qed

subsection \<open>The stream\<close>

lemma to_decimal_small:
  "to_decimal 0 = ''0''" "to_decimal 1 = ''1''" "to_decimal 2 = ''2''"
  by (simp_all add: to_decimal_def digits.simps digit_char_def)

lemma line_small:
  "line 0 = ''0\<newline>''" "line 1 = ''1\<newline>''" "line 2 = ''2\<newline>''"
  by (simp_all add: line_def newline_def to_decimal_small)

lemma stdout_flush_empty: "cout_buf p = [] \<Longrightarrow> stdout_flush p = Inr p"
  by (simp add: stdout_flush_def)

lemma ostream_flush_empty: "cout_buf p = [] \<Longrightarrow> ostream_flush p = Inr p"
  by (simp add: ostream_flush_def stdout_flush_def)

lemma stdout_flush_in_bounds: "stdout_flush p \<noteq> Inl Out_of_range"
  by (simp add: stdout_flush_def)

lemma stdout_flush_stderr:
  "stdout_flush p = Inr q \<Longrightarrow> stderr_writes (os q) = stderr_writes (os p)"
  by (auto simp: stdout_flush_def split: if_splits)

lemma print_body_unfold:
  "print_body i p = ostream_flush (ostream_put newline (ostream_insert_int i p))"
  by (simp add: print_body_def endl_def)

lemma print_body_normal:
  assumes "stdout_writable (os p)" and "\<not> cout_bad p"
  shows "print_body i p =
     Inr (p\<lparr>os := (os p)\<lparr>stdout_writes := stdout_writes (os p) @ [cout_buf p @ line i]\<rparr>,
            cout_buf := []\<rparr>)"
  using assms
  by (simp add: print_body_unfold ostream_flush_def stdout_flush_def ostream_put_def
      ostream_insert_int_def line_def)

lemma print_body_bad: "cout_bad p \<Longrightarrow> print_body i p = Inr p"
  by (simp add: print_body_unfold ostream_flush_def ostream_put_def ostream_insert_int_def)

lemma print_body_sigpipe:
  assumes "\<not> stdout_writable (os p)" and "stdout_sigpipe (os p)" and "\<not> cout_bad p"
  shows "print_body i p = Inl Sigpipe"
  using assms
  by (simp add: print_body_unfold ostream_flush_def stdout_flush_def ostream_put_def
      ostream_insert_int_def)

lemma print_body_error:
  assumes "\<not> stdout_writable (os p)" and "\<not> stdout_sigpipe (os p)" and "\<not> cout_bad p"
  shows "print_body i p = Inr (p\<lparr>cout_buf := [], cout_bad := True\<rparr>)"
  using assms
  by (simp add: print_body_unfold ostream_flush_def stdout_flush_def ostream_put_def
      ostream_insert_int_def)

lemma print_body_in_bounds: "print_body i p \<noteq> Inl Out_of_range"
  by (simp add: print_body_unfold ostream_flush_def stdout_flush_def)

lemma print_body_stderr:
  "print_body i p = Inr q \<Longrightarrow> stderr_writes (os q) = stderr_writes (os p)"
  by (auto simp: print_body_unfold ostream_flush_def ostream_put_def ostream_insert_int_def
      split: if_splits dest!: stdout_flush_stderr)

subsection \<open>The printing loop\<close>

lemma print_loop_stop: "print_loop v e e p = Inr p"
  by (subst print_loop.simps) simp

lemma print_loop_step:
  "it < length v \<Longrightarrow> it \<noteq> e \<Longrightarrow>
     print_loop v it e p =
       (case print_body (v ! it) p of
          Inl f \<Rightarrow> Inl f
        | Inr q \<Rightarrow> print_loop v (it + 1) e q)"
  by (subst print_loop.simps) (simp add: deref_def)

lemma print_loop_overrun: "length v \<le> it \<Longrightarrow> it \<noteq> e \<Longrightarrow> print_loop v it e p = Inl Out_of_range"
  by (subst print_loop.simps) (simp add: deref_def)

lemma print_loop_in_bounds:
  "it \<le> length v \<Longrightarrow> print_loop v it (length v) p \<noteq> Inl Out_of_range"
proof (induction "length v - it" arbitrary: it p)
  case 0
  then show ?case by (simp add: print_loop_stop)
next
  case (Suc n)
  then have lt: "it < length v" and "n = length v - (it + 1)" and "it + 1 \<le> length v"
    by simp_all
  then have next_ok: "print_loop v (it + 1) (length v) q \<noteq> Inl Out_of_range" for q
    using Suc.hyps(1) by simp
  show ?case
  proof (cases "print_body (v ! it) p")
    case (Inl f)
    with print_body_in_bounds [of "v ! it" p] lt show ?thesis
      by (simp add: print_loop_step)
  next
    case (Inr q)
    with next_ok [of q] lt show ?thesis
      by (simp add: print_loop_step)
  qed
qed

lemma print_loop_outcome:
  assumes "it \<le> length v"
  shows "print_loop v it (length v) p = Inl Sigpipe \<or>
         (\<exists>p'. print_loop v it (length v) p = Inr p')"
proof (cases "print_loop v it (length v) p")
  case (Inl f)
  with print_loop_in_bounds [OF assms, of p] show ?thesis
    by (cases f) simp_all
next
  case (Inr p')
  then show ?thesis by simp
qed

lemma print_loop_stderr:
  "print_loop v it e p = Inr p' \<Longrightarrow> stderr_writes (os p') = stderr_writes (os p)"
proof (induction v it e p rule: print_loop.induct)
  case (1 v it e p)
  show ?case
  proof (cases "it = e")
    case True
    with "1.prems" show ?thesis by (simp add: print_loop_stop)
  next
    case False
    show ?thesis
    proof (cases "it < length v")
      case True
      then have d: "deref v it = Inr (v ! it)" by (simp add: deref_def)
      from "1.prems" True False obtain q
        where q: "print_body (v ! it) p = Inr q"
          and rest: "print_loop v (it + 1) e q = Inr p'"
        by (auto simp: print_loop_step split: sum.splits)
      from "1.IH" [OF False d q rest] print_body_stderr [OF q] show ?thesis
        by simp
    next
      case False
      with \<open>it \<noteq> e\<close> "1.prems" show ?thesis
        by (simp add: print_loop_overrun)
    qed
  qed
qed

lemma print_loop_normal:
  assumes "stdout_writable (os p)" and "\<not> cout_bad p" and "cout_buf p = []"
    and "it \<le> length v"
  shows "print_loop v it (length v) p =
     Inr (p\<lparr>os := (os p)\<lparr>stdout_writes := stdout_writes (os p) @ map line (drop it v)\<rparr>\<rparr>)"
  using assms
proof (induction "length v - it" arbitrary: it p)
  case 0
  then show ?case by (simp add: print_loop_stop)
next
  case (Suc n)
  then have lt: "it < length v" by simp
  define q where "q = p\<lparr>os := (os p)\<lparr>stdout_writes := stdout_writes (os p) @ [line (v ! it)]\<rparr>\<rparr>"
  have body: "print_body (v ! it) p = Inr q"
    using Suc.prems by (simp add: print_body_normal q_def)
  have "print_loop v (it + 1) (length v) q =
     Inr (q\<lparr>os := (os q)\<lparr>stdout_writes := stdout_writes (os q) @ map line (drop (it + 1) v)\<rparr>\<rparr>)"
    using Suc.hyps(2) Suc.prems lt by (intro Suc.hyps(1)) (simp_all add: q_def)
  moreover have "drop it v = v ! it # drop (it + 1) v"
    using lt by (simp add: Cons_nth_drop_Suc)
  ultimately show ?case
    using lt by (simp add: print_loop_step body) (simp add: q_def)
qed

lemma print_loop_bad:
  "cout_bad p \<Longrightarrow> it \<le> length v \<Longrightarrow> print_loop v it (length v) p = Inr p"
proof (induction "length v - it" arbitrary: it)
  case 0
  then show ?case by (simp add: print_loop_stop)
next
  case (Suc n)
  then have "it < length v" and "n = length v - (it + 1)" and "it + 1 \<le> length v"
    by simp_all
  with Suc.hyps(1) [of "it + 1"] Suc.prems(1) show ?case
    by (simp add: print_loop_step print_body_bad)
qed

lemma print_loop_sigpipe:
  assumes "\<not> stdout_writable (os p)" and "stdout_sigpipe (os p)" and "\<not> cout_bad p"
    and "it < length v"
  shows "print_loop v it (length v) p = Inl Sigpipe"
  using assms by (simp add: print_loop_step print_body_sigpipe)

lemma print_loop_error:
  assumes "\<not> stdout_writable (os p)" and "\<not> stdout_sigpipe (os p)" and "\<not> cout_bad p"
    and "it < length v"
  shows "print_loop v it (length v) p = Inr (p\<lparr>cout_buf := [], cout_bad := True\<rparr>)"
  using assms by (simp add: print_loop_step print_body_error print_loop_bad)

subsection \<open>\<^verbatim>\<open>main\<close> and the run\<close>

lemma main_in_bounds: "main p \<noteq> Inl Out_of_range"
  using print_loop_in_bounds [of 0 "build_loop [] 0" p]
  by (auto simp: main_def Let_def vector_begin_def vector_end_def split: sum.splits)

lemma main_completes:
  "print_loop (build_loop [] 0) (vector_begin (build_loop [] 0))
     (vector_end (build_loop [] 0)) p = Inr p' \<Longrightarrow> main p = Inr (p', 0)"
  by (simp add: main_def)

lemma main_stderr: "main p = Inr (p', status) \<Longrightarrow> stderr_writes (os p') = stderr_writes (os p)"
  by (auto simp: main_def Let_def split: sum.splits dest: print_loop_stderr)

lemma main_normal:
  assumes "stdout_writable (os p)" and "\<not> cout_bad p" and "cout_buf p = []"
  shows "main p =
     Inr (p\<lparr>os := (os p)\<lparr>stdout_writes :=
            stdout_writes (os p) @ [''0\<newline>'', ''1\<newline>'', ''2\<newline>'']\<rparr>\<rparr>, 0)"
proof -
  have "print_loop [0, 1, 2] 0 (length [0, 1, 2 :: cint]) p =
     Inr (p\<lparr>os := (os p)\<lparr>stdout_writes :=
            stdout_writes (os p) @ map line (drop 0 [0, 1, 2])\<rparr>\<rparr>)"
    using assms by (intro print_loop_normal) simp_all
  then show ?thesis
    by (simp add: main_def vector_begin_def vector_end_def build_loop_result line_small)
qed

lemma main_sigpipe:
  assumes "\<not> stdout_writable (os p)" and "stdout_sigpipe (os p)" and "\<not> cout_bad p"
  shows "main p = Inl Sigpipe"
proof -
  have "print_loop [0, 1, 2] 0 (length [0, 1, 2 :: cint]) p = Inl Sigpipe"
    using assms by (intro print_loop_sigpipe) simp_all
  then show ?thesis
    by (simp add: main_def vector_begin_def vector_end_def build_loop_result)
qed

lemma main_error:
  assumes "\<not> stdout_writable (os p)" and "\<not> stdout_sigpipe (os p)" and "\<not> cout_bad p"
  shows "main p = Inr (p\<lparr>cout_buf := [], cout_bad := True\<rparr>, 0)"
proof -
  have "print_loop [0, 1, 2] 0 (length [0, 1, 2 :: cint]) p =
      Inr (p\<lparr>cout_buf := [], cout_bad := True\<rparr>)"
    using assms by (intro print_loop_error) simp_all
  then show ?thesis
    by (simp add: main_def vector_begin_def vector_end_def build_loop_result)
qed

lemma run_process_in_bounds: "run_process argv envp wl \<noteq> Inl Out_of_range"
  using main_in_bounds [of "start_process wl"]
  by (auto simp: run_process_def stdout_flush_in_bounds split: sum.splits)

lemma run_process_normal:
  assumes "stdout_writable wl"
  shows "run_process argv envp wl =
     Inr (wl\<lparr>stdout_writes := stdout_writes wl @ [''0\<newline>'', ''1\<newline>'', ''2\<newline>'']\<rparr>, 0)"
proof -
  have "main (start_process wl) =
     Inr ((start_process wl)\<lparr>os := (os (start_process wl))\<lparr>stdout_writes :=
            stdout_writes (os (start_process wl)) @ [''0\<newline>'', ''1\<newline>'', ''2\<newline>'']\<rparr>\<rparr>, 0)"
    using assms by (intro main_normal) (simp_all add: start_process_def)
  then show ?thesis
    by (simp add: run_process_def start_process_def stdout_flush_def)
qed

lemma run_process_sigpipe:
  assumes "\<not> stdout_writable wl" and "stdout_sigpipe wl"
  shows "run_process argv envp wl = Inl Sigpipe"
proof -
  have "main (start_process wl) = Inl Sigpipe"
    using assms by (intro main_sigpipe) (simp_all add: start_process_def)
  then show ?thesis
    by (simp add: run_process_def)
qed

lemma run_process_error:
  assumes "\<not> stdout_writable wl" and "\<not> stdout_sigpipe wl"
  shows "run_process argv envp wl = Inr (wl, 0)"
proof -
  have "main (start_process wl) = Inr ((start_process wl)\<lparr>cout_buf := [], cout_bad := True\<rparr>, 0)"
    using assms by (intro main_error) (simp_all add: start_process_def)
  then show ?thesis
    by (simp add: run_process_def start_process_def stdout_flush_def)
qed

lemma run_process_stderr:
  "run_process argv envp wl = Inr (wl', status) \<Longrightarrow> stderr_writes wl' = stderr_writes wl"
  by (auto simp: run_process_def start_process_def
      split: sum.splits dest!: main_stderr stdout_flush_stderr)

section \<open>The claims\<close>

text \<open>
  Claim C1. In every run with a writable standard output and no arguments, the bytes
  the program adds to the standard output are exactly \<open>0\<close>, \<open>1\<close>, \<open>2\<close>, each followed
  by a newline, in that order and nothing else. The print phase goes through the
  vector from the first element to the last in insertion order: for any vector \<open>v\<close>, a
  fresh process delivers the lines of \<open>v\<close> in the order of \<open>v\<close>.
\<close>

theorem stdout_three_lines:
  assumes "stdout_writable wl"
  shows "(\<exists>wl' status. run_process [] envp wl = Inr (wl', status) \<and>
            stdout_bytes wl' = stdout_bytes wl @ ''0\<newline>1\<newline>2\<newline>'') \<and>
         (\<exists>p'. print_loop v (vector_begin v) (vector_end v) (start_process wl) = Inr p' \<and>
            stdout_writes (os p') = stdout_writes wl @ map line v)"
proof
  show "\<exists>wl' status. run_process [] envp wl = Inr (wl', status) \<and>
          stdout_bytes wl' = stdout_bytes wl @ ''0\<newline>1\<newline>2\<newline>''"
    using assms by (simp add: run_process_normal stdout_bytes_def)
next
  have "print_loop v 0 (length v) (start_process wl) =
     Inr ((start_process wl)\<lparr>os := (os (start_process wl))\<lparr>stdout_writes :=
            stdout_writes (os (start_process wl)) @ map line (drop 0 v)\<rparr>\<rparr>)"
    using assms by (intro print_loop_normal) (simp_all add: start_process_def)
  then show "\<exists>p'. print_loop v (vector_begin v) (vector_end v) (start_process wl) = Inr p' \<and>
      stdout_writes (os p') = stdout_writes wl @ map line v"
    by (simp add: vector_begin_def vector_end_def start_process_def)
qed

text \<open>The theorem at a concrete input.\<close>

theorem stdout_three_lines_witness:
  "stdout_writable \<lparr>stdout_writable = True, stdout_sigpipe = False, stdout_writes = [], stderr_writes = []\<rparr> \<and>
   (\<exists>wl' status.
      run_process [] [] \<lparr>stdout_writable = True, stdout_sigpipe = False, stdout_writes = [], stderr_writes = []\<rparr>
        = Inr (wl', status) \<and>
      stdout_bytes wl' = ''0\<newline>1\<newline>2\<newline>'') \<and>
   (\<exists>p'. print_loop [7, 5] (vector_begin [7, 5]) (vector_end [7, 5])
        (start_process \<lparr>stdout_writable = True, stdout_sigpipe = False, stdout_writes = [], stderr_writes = []\<rparr>)
        = Inr p' \<and>
      stdout_writes (os p') = [''7\<newline>'', ''5\<newline>''])"
proof -
  let ?w = "\<lparr>stdout_writable = True, stdout_sigpipe = False, stdout_writes = [], stderr_writes = []\<rparr>"
  have h: "stdout_writable ?w" by simp
  have l: "line 7 = ''7\<newline>''" "line 5 = ''5\<newline>''"
    by (simp_all add: line_def newline_def to_decimal_def digits.simps digit_char_def)
  from stdout_three_lines [OF h, of "[]" "[7, 5]"] show ?thesis
    by (simp add: stdout_bytes_def l)
qed

text \<open>
  Claim C2. After the build phase the vector has length exactly 3 and position \<open>i\<close>
  holds \<open>i\<close> for \<open>i\<close> in 0, 1, 2. The loop stops at the bound 3: the counter is 3 at
  the last loop test, the value 3 is not appended and the value 0 is there.
\<close>

theorem build_phase_postcondition:
  "length (build_loop [] 0) = 3 \<and>
   build_loop [] 0 ! 0 = 0 \<and> build_loop [] 0 ! 1 = 1 \<and> build_loop [] 0 ! 2 = 2 \<and>
   3 \<notin> set (build_loop [] 0) \<and> 0 \<in> set (build_loop [] 0) \<and>
   last (build_trace [] 0) = (build_loop [] 0, 3)"
  by (simp add: build_loop_result build_trace_result)

text \<open>
  Claim C3. Every run with a writable standard output completes and returns the exit
  status 0; the run is a function of its inputs, so no other status is returned.
\<close>

theorem exit_status_zero:
  assumes "stdout_writable wl"
  shows "\<exists>wl'. run_process argv envp wl = Inr (wl', 0)"
  using assms by (simp add: run_process_normal)

text \<open>The theorem at a concrete input.\<close>

theorem exit_status_zero_witness:
  "stdout_writable \<lparr>stdout_writable = True, stdout_sigpipe = False, stdout_writes = [''old''], stderr_writes = []\<rparr> \<and>
   (\<exists>wl'. run_process [] [(''HOME'', ''/root'')]
      \<lparr>stdout_writable = True, stdout_sigpipe = False, stdout_writes = [''old''], stderr_writes = []\<rparr> = Inr (wl', 0))"
proof -
  let ?w = "\<lparr>stdout_writable = True, stdout_sigpipe = False, stdout_writes = [''old''], stderr_writes = []\<rparr>"
  have h: "stdout_writable ?w" by simp
  from h exit_status_zero [OF h] show ?thesis by (rule conjI)
qed

text \<open>
  Claim C4. The program is deterministic and keeps no hidden state between runs: two
  runs without arguments, in any two worlds with a writable standard output (in
  particular a world and the world a first run has left behind), add the same chunks
  to the standard output and return the same status, and leave the standard output
  writable for the next run.
\<close>

theorem runs_identical:
  assumes "stdout_writable wl1" and "stdout_writable wl2"
  shows "\<exists>out status wl1' wl2'.
           run_process [] envp wl1 = Inr (wl1', status) \<and>
           run_process [] envp wl2 = Inr (wl2', status) \<and>
           stdout_writes wl1' = stdout_writes wl1 @ out \<and>
           stdout_writes wl2' = stdout_writes wl2 @ out \<and>
           stdout_writable wl1' \<and> stdout_writable wl2'"
  using assms by (simp add: run_process_normal)

text \<open>The theorem at a concrete input.\<close>

theorem runs_identical_witness:
  "stdout_writable \<lparr>stdout_writable = True, stdout_sigpipe = False, stdout_writes = [], stderr_writes = []\<rparr> \<and>
   stdout_writable \<lparr>stdout_writable = True, stdout_sigpipe = False,
      stdout_writes = [''0\<newline>'', ''1\<newline>'', ''2\<newline>''], stderr_writes = []\<rparr> \<and>
   (\<exists>out status wl1' wl2'.
      run_process [] [] \<lparr>stdout_writable = True, stdout_sigpipe = False, stdout_writes = [], stderr_writes = []\<rparr>
        = Inr (wl1', status) \<and>
      run_process [] [] \<lparr>stdout_writable = True, stdout_sigpipe = False,
          stdout_writes = [''0\<newline>'', ''1\<newline>'', ''2\<newline>''], stderr_writes = []\<rparr>
        = Inr (wl2', status) \<and>
      stdout_writes wl1' = out \<and>
      stdout_writes wl2' = [''0\<newline>'', ''1\<newline>'', ''2\<newline>''] @ out)"
proof -
  let ?a = "\<lparr>stdout_writable = True, stdout_sigpipe = False, stdout_writes = [], stderr_writes = []\<rparr>"
  let ?b = "\<lparr>stdout_writable = True, stdout_sigpipe = False,
      stdout_writes = [''0\<newline>'', ''1\<newline>'', ''2\<newline>''], stderr_writes = []\<rparr>"
  have a: "stdout_writable ?a" and b: "stdout_writable ?b" by simp_all
  from runs_identical [OF a b, of "[]"] show ?thesis
    by simp blast
qed

text \<open>
  Claim C5. What a run does (the world it leaves and its exit status) does not depend
  on the command-line arguments or the environment variables: two runs that differ
  only in those have the same result.
\<close>

theorem inputs_not_consumed:
  "run_process argv envp wl = run_process argv' envp' wl"
  by (simp add: run_process_def)

text \<open>
  Claim C6. Under normal operation (a writable standard output) the program writes
  to the standard output only: the standard error stream has received nothing new
  when the run has completed.
\<close>

theorem stderr_unchanged:
  assumes "stdout_writable wl"
  shows "\<exists>wl' status. run_process argv envp wl = Inr (wl', status) \<and>
           stderr_writes wl' = stderr_writes wl \<and> stderr_bytes wl' = stderr_bytes wl"
  using assms by (simp add: run_process_normal stderr_bytes_def)

text \<open>The theorem at a concrete input.\<close>

theorem stderr_unchanged_witness:
  "stdout_writable \<lparr>stdout_writable = True, stdout_sigpipe = False, stdout_writes = [], stderr_writes = [''warn'']\<rparr> \<and>
   (\<exists>wl' status.
      run_process [] [] \<lparr>stdout_writable = True, stdout_sigpipe = False, stdout_writes = [], stderr_writes = [''warn'']\<rparr>
        = Inr (wl', status) \<and>
      stderr_writes wl' = [''warn''] \<and> stderr_bytes wl' = ''warn'')"
proof -
  let ?w = "\<lparr>stdout_writable = True, stdout_sigpipe = False, stdout_writes = [], stderr_writes = [''warn'']\<rparr>"
  have h: "stdout_writable ?w" by simp
  from stderr_unchanged [OF h, of "[]" "[]"] show ?thesis
    by (simp add: stderr_bytes_def)
qed

text \<open>
  Claim C7. The program terminates in every run, and when the print phase has
  completed \<^verbatim>\<open>main\<close> returns the success status 0 to its caller. Both loops are
  bounded: the building loop evaluates its test 4 times (3 iterations), and the
  printing loop ends on every vector, from every state of the process. A run ends
  in one of two ways: with the exit status 0, or killed by \<^verbatim>\<open>SIGPIPE\<close> in a write;
  it is killed only when the standard output does not accept bytes and fails
  with that signal.
\<close>

theorem program_terminates:
  "(run_process argv envp wl = Inl Sigpipe \<or>
      (\<exists>wl'. run_process argv envp wl = Inr (wl', 0))) \<and>
   (run_process argv envp wl = Inl Sigpipe \<longrightarrow>
      \<not> stdout_writable wl \<and> stdout_sigpipe wl) \<and>
   (print_loop (build_loop [] 0) (vector_begin (build_loop [] 0))
        (vector_end (build_loop [] 0)) p = Inr p' \<longrightarrow>
      main p = Inr (p', 0)) \<and>
   length (build_trace [] 0) = 4 \<and>
   (print_loop v (vector_begin v) (vector_end v) q = Inl Sigpipe \<or>
      (\<exists>q'. print_loop v (vector_begin v) (vector_end v) q = Inr q'))"
proof -
  consider (ok) "stdout_writable wl"
    | (pipe) "\<not> stdout_writable wl" "stdout_sigpipe wl"
    | (err) "\<not> stdout_writable wl" "\<not> stdout_sigpipe wl"
    by blast
  then have run: "(run_process argv envp wl = Inl Sigpipe \<or>
      (\<exists>wl'. run_process argv envp wl = Inr (wl', 0))) \<and>
    (run_process argv envp wl = Inl Sigpipe \<longrightarrow>
      \<not> stdout_writable wl \<and> stdout_sigpipe wl)"
  proof cases
    case ok
    then show ?thesis by (simp add: run_process_normal)
  next
    case pipe
    then show ?thesis by (simp add: run_process_sigpipe)
  next
    case err
    then show ?thesis by (simp add: run_process_error)
  qed
  have loop: "print_loop v (vector_begin v) (vector_end v) q = Inl Sigpipe \<or>
      (\<exists>q'. print_loop v (vector_begin v) (vector_end v) q = Inr q')"
    using print_loop_outcome [of 0 v q] by (simp add: vector_begin_def vector_end_def)
  have "length (build_trace [] 0) = 4"
    by (simp add: build_trace_result)
  with run loop show ?thesis
    by (simp add: main_completes)
qed

text \<open>
  The theorem at concrete inputs: a run into a pipe without reader, which is killed;
  a run with a writable standard output; and \<^verbatim>\<open>main\<close> after a completed print phase.
\<close>

theorem program_terminates_witness:
  "run_process [] []
       \<lparr>stdout_writable = False, stdout_sigpipe = True, stdout_writes = [], stderr_writes = []\<rparr>
     = Inl Sigpipe \<and>
   \<not> stdout_writable
       \<lparr>stdout_writable = False, stdout_sigpipe = True, stdout_writes = [], stderr_writes = []\<rparr> \<and>
   stdout_sigpipe
       \<lparr>stdout_writable = False, stdout_sigpipe = True, stdout_writes = [], stderr_writes = []\<rparr> \<and>
   print_loop (build_loop [] 0) (vector_begin (build_loop [] 0)) (vector_end (build_loop [] 0))
       (start_process
         \<lparr>stdout_writable = True, stdout_sigpipe = False, stdout_writes = [], stderr_writes = []\<rparr>)
     = Inr (start_process
         \<lparr>stdout_writable = True, stdout_sigpipe = False,
            stdout_writes = [''0\<newline>'', ''1\<newline>'', ''2\<newline>''], stderr_writes = []\<rparr>) \<and>
   main (start_process
         \<lparr>stdout_writable = True, stdout_sigpipe = False, stdout_writes = [], stderr_writes = []\<rparr>)
     = Inr (start_process
         \<lparr>stdout_writable = True, stdout_sigpipe = False,
            stdout_writes = [''0\<newline>'', ''1\<newline>'', ''2\<newline>''], stderr_writes = []\<rparr>, 0)"
proof -
  let ?pipe = "\<lparr>stdout_writable = False, stdout_sigpipe = True,
      stdout_writes = [], stderr_writes = []\<rparr>"
  let ?p = "start_process
      \<lparr>stdout_writable = True, stdout_sigpipe = False, stdout_writes = [], stderr_writes = []\<rparr>"
  let ?p' = "start_process
      \<lparr>stdout_writable = True, stdout_sigpipe = False,
         stdout_writes = [''0\<newline>'', ''1\<newline>'', ''2\<newline>''], stderr_writes = []\<rparr>"
  have killed: "run_process [] [] ?pipe = Inl Sigpipe"
    by (simp add: run_process_sigpipe)
  have "print_loop [0, 1, 2] 0 (length [0, 1, 2 :: cint]) ?p =
      Inr (?p\<lparr>os := (os ?p)\<lparr>stdout_writes :=
             stdout_writes (os ?p) @ map line (drop 0 [0, 1, 2])\<rparr>\<rparr>)"
    by (intro print_loop_normal) (simp_all add: start_process_def)
  then have printed: "print_loop (build_loop [] 0) (vector_begin (build_loop [] 0))
      (vector_end (build_loop [] 0)) ?p = Inr ?p'"
    by (simp add: build_loop_result vector_begin_def vector_end_def start_process_def line_small)
  from program_terminates [of "[]" "[]" ?pipe] killed
  have "\<not> stdout_writable ?pipe \<and> stdout_sigpipe ?pipe"
    by blast
  moreover from program_terminates [of _ _ _ ?p ?p'] printed
  have "main ?p = Inr (?p', 0)"
    by blast
  ultimately show ?thesis
    using killed printed by blast
qed

text \<open>
  Claim C8. The invariant of the building loop. At the \<open>k\<close>-th iteration boundary,
  with vector \<open>v\<close> and counter \<open>i\<close>: the length of \<open>v\<close> is \<open>i\<close>, every position \<open>j\<close>
  below the length holds \<open>j\<close>, the counter is \<open>k\<close> and at most 3, and at the next
  boundary, when there is one, the counter is \<open>i + 1\<close>, without wrap-around.
\<close>

theorem build_loop_invariant:
  assumes "k < length (build_trace [] 0)" and "build_trace [] 0 ! k = (v, i)"
  shows "int (length v) = sint i \<and> (\<forall>j<length v. sint (v ! j) = int j) \<and>
         sint i = int k \<and> sint i \<le> 3 \<and>
         (Suc k < length (build_trace [] 0) \<longrightarrow>
            snd (build_trace [] 0 ! Suc k) = i + 1 \<and> sint (i + 1) = sint i + 1)"
proof -
  from assms have "(v, i) \<in> set (build_trace [] 0)"
    by (metis nth_mem)
  with build_inv_init have inv: "build_inv v i"
    by (rule build_trace_inv)
  from build_trace_length_nth [OF assms(1)] assms(2) have len: "length v = k"
    by simp
  from inv len have count: "sint i = int k"
    by (simp add: build_inv_def)
  have step: "snd (build_trace [] 0 ! Suc k) = i + 1 \<and> sint (i + 1) = sint i + 1"
    if more: "Suc k < length (build_trace [] 0)"
  proof
    from build_trace_counter [OF more] assms(2)
    show "snd (build_trace [] 0 ! Suc k) = i + 1"
      by simp
    from more count have "sint i < 3"
      by (simp add: build_trace_result)
    then show "sint (i + 1) = sint i + 1"
      by (rule sint_succ)
  qed
  from inv count step show ?thesis
    by (simp add: build_inv_def)
qed

text \<open>The theorem at a concrete input.\<close>

theorem build_loop_invariant_witness:
  "2 < length (build_trace [] 0) \<and> build_trace [] 0 ! 2 = ([0, 1], 2) \<and>
   int (length [0, 1 :: cint]) = sint (2 :: cint) \<and>
   sint ([0, 1 :: cint] ! 1) = int 1 \<and>
   sint (2 :: cint) = int 2 \<and> sint (2 :: cint) \<le> 3 \<and>
   snd (build_trace [] 0 ! Suc 2) = 2 + 1 \<and> sint (2 + 1 :: cint) = sint (2 :: cint) + 1"
proof -
  have a: "2 < length (build_trace [] 0)"
    and b: "build_trace [] 0 ! 2 = ([0, 1], 2)"
    and c: "Suc 2 < length (build_trace [] 0)"
    by (simp_all add: build_trace_result)
  from build_loop_invariant [OF a b] c
  have "int (length [0, 1 :: cint]) = sint (2 :: cint)"
    and "\<forall>j<length [0, 1 :: cint]. sint ([0, 1 :: cint] ! j) = int j"
    and "sint (2 :: cint) = int 2" and "sint (2 :: cint) \<le> 3"
    and "snd (build_trace [] 0 ! Suc 2) = 2 + 1"
    and "sint (2 + 1 :: cint) = sint (2 :: cint) + 1"
    by blast+
  with a b show ?thesis
    by simp
qed

text \<open>
  Claim C9. Every read of the vector is in bounds: the printing loop, run from
  \<^verbatim>\<open>begin()\<close> to \<^verbatim>\<open>end()\<close> as the range-based loop does, never dereferences a position
  outside the stored elements, for any vector; so neither \<^verbatim>\<open>main\<close> nor any run ends in
  the fault \<open>Out_of_range\<close>.
\<close>

theorem reads_in_bounds:
  "print_loop v (vector_begin v) (vector_end v) p \<noteq> Inl Out_of_range \<and>
   main p \<noteq> Inl Out_of_range \<and>
   run_process argv envp wl \<noteq> Inl Out_of_range"
  using run_process_in_bounds [of argv envp wl] print_loop_in_bounds [of 0 v p]
    main_in_bounds [of p]
  by (simp add: vector_begin_def vector_end_def)

text \<open>
  Claim C10. Each line is flushed before the next element is written. In every run
  the body of the printing loop is the insertion of the decimal text, the newline,
  and then a flush. In a run with a writable standard output and a good stream whose
  buffer is empty, the line of the element has been delivered as a chunk of its own
  and the buffer is empty again when the body is done; so \<^verbatim>\<open>main\<close> delivers three
  chunks, one per line, and nothing is left for the flush at process exit.
\<close>

theorem flush_after_each_line:
  "print_body i p = ostream_flush (ostream_put newline (ostream_insert_int i p)) \<and>
   (stdout_writable (os p) \<and> \<not> cout_bad p \<and> cout_buf p = [] \<longrightarrow>
      (\<exists>q. print_body i p = Inr q \<and> cout_buf q = [] \<and>
         stdout_writes (os q) = stdout_writes (os p) @ [line i]) \<and>
      (\<exists>p'. main p = Inr (p', 0) \<and> cout_buf p' = [] \<and>
         stdout_writes (os p') =
           stdout_writes (os p) @ [''0\<newline>'', ''1\<newline>'', ''2\<newline>''] \<and>
         ostream_flush p' = Inr p' \<and> stdout_flush p' = Inr p'))"
  by (simp add: print_body_normal main_normal ostream_flush_empty stdout_flush_empty)
     (simp add: print_body_unfold)

text \<open>The theorem at a concrete input.\<close>

theorem flush_after_each_line_witness:
  "stdout_writable (os (start_process
      \<lparr>stdout_writable = True, stdout_sigpipe = False, stdout_writes = [], stderr_writes = []\<rparr>)) \<and>
   \<not> cout_bad (start_process
      \<lparr>stdout_writable = True, stdout_sigpipe = False, stdout_writes = [], stderr_writes = []\<rparr>) \<and>
   cout_buf (start_process
      \<lparr>stdout_writable = True, stdout_sigpipe = False, stdout_writes = [], stderr_writes = []\<rparr>) = [] \<and>
   (\<exists>q. print_body 1 (start_process
        \<lparr>stdout_writable = True, stdout_sigpipe = False, stdout_writes = [], stderr_writes = []\<rparr>)
        = Inr q \<and>
      cout_buf q = [] \<and> stdout_writes (os q) = [''1\<newline>'']) \<and>
   (\<exists>p'. main (start_process
        \<lparr>stdout_writable = True, stdout_sigpipe = False, stdout_writes = [], stderr_writes = []\<rparr>)
        = Inr (p', 0) \<and>
      cout_buf p' = [] \<and>
      stdout_writes (os p') = [''0\<newline>'', ''1\<newline>'', ''2\<newline>''] \<and>
      ostream_flush p' = Inr p' \<and> stdout_flush p' = Inr p')"
proof -
  let ?p = "start_process
      \<lparr>stdout_writable = True, stdout_sigpipe = False, stdout_writes = [], stderr_writes = []\<rparr>"
  have a: "stdout_writable (os ?p)" and b: "\<not> cout_bad ?p" and c: "cout_buf ?p = []"
    by (simp_all add: start_process_def)
  have s: "stdout_writes (os ?p) = []"
    by (simp add: start_process_def)
  from flush_after_each_line [of 1 ?p] a b c
  have "(\<exists>q. print_body 1 ?p = Inr q \<and> cout_buf q = [] \<and>
         stdout_writes (os q) = stdout_writes (os ?p) @ [line 1]) \<and>
      (\<exists>p'. main ?p = Inr (p', 0) \<and> cout_buf p' = [] \<and>
         stdout_writes (os p') =
           stdout_writes (os ?p) @ [''0\<newline>'', ''1\<newline>'', ''2\<newline>''] \<and>
         ostream_flush p' = Inr p' \<and> stdout_flush p' = Inr p')"
    by blast
  with a b c show ?thesis
    by (simp add: s line_small)
qed

end
